theory Spec2Isabelle
  imports
    Main
    "HOL-Library.Finite_Map"
    "HOL-Library.Char_ord"
    "HOL-Library.List_Lexorder"
begin

section \<open>The cache object of SingletonPattern.cpp\<close>

text \<open>
  \<^verbatim>\<open>CacheManager\<close> holds \<^verbatim>\<open>std::unordered_map<std::string, std::string> cache\<close>:
  a finite mapping with unique keys, here a finite map over byte strings. The second
  data member, \<^verbatim>\<open>cacheMutex\<close>, is taken by a \<^verbatim>\<open>std::lock_guard\<close> at the start of
  each critical section and released at its end; no member function calls another while
  holding it, so between two calls of one thread it is always free and the sequential
  model does not carry it.

  The only exception any member function throws itself is \<^verbatim>\<open>std::invalid_argument\<close>.
  Exhaustion of memory (\<^verbatim>\<open>std::bad_alloc\<close> out of the map or out of \<^verbatim>\<open>new\<close>) is
  outside the model.
\<close>

datatype error = InvalidArgument

record CacheManager =
  cache :: "(string, string) fmap"

text \<open>The private default constructor: an empty map.\<close>

definition CacheManager_new :: CacheManager where
  "CacheManager_new = \<lparr>cache = fmempty\<rparr>"

text \<open>
  \<^verbatim>\<open>put\<close> throws on the empty key before it touches anything; otherwise
  \<^verbatim>\<open>cache[key] = value\<close> inserts or overwrites. A throwing call is the pair of
  the error and the object as it was at the \<^verbatim>\<open>throw\<close>.
\<close>

definition put :: "string \<Rightarrow> string \<Rightarrow> CacheManager \<Rightarrow> (error + unit) \<times> CacheManager" where
  "put key val s =
     (if key = [] then (Inl InvalidArgument, s)
      else (Inr (), s\<lparr>cache := fmupd key val (cache s)\<rparr>))"

text \<open>
  \<^verbatim>\<open>get\<close> throws on the empty key; otherwise \<^verbatim>\<open>cache.find(key)\<close> decides between
  the stored value and the empty string of the last \<^verbatim>\<open>return\<close>.
\<close>

definition get :: "string \<Rightarrow> CacheManager \<Rightarrow> (error + string) \<times> CacheManager" where
  "get key s =
     (if key = [] then (Inl InvalidArgument, s)
      else (case fmlookup (cache s) key of
              Some v \<Rightarrow> (Inr v, s)
            | None \<Rightarrow> (Inr [], s)))"

definition clear :: "CacheManager \<Rightarrow> CacheManager" where
  "clear s = s\<lparr>cache := fmempty\<rparr>"

text \<open>
  \<^verbatim>\<open>size\<close> returns \<^verbatim>\<open>cache.size()\<close>, the number of entries, as a \<^verbatim>\<open>size_t\<close>.
  The count of a map that fits in memory is below \<open>2 ^ 64\<close>, so the model reads it as a
  natural number. The object is left as it was.
\<close>

definition size_c :: "CacheManager \<Rightarrow> nat" where
  "size_c s = fcard (fmdom (cache s))"

text \<open>
  \<^verbatim>\<open>print\<close> writes a header line and then either \<^verbatim>\<open>  (empty)\<close> or one line
  per entry to \<^verbatim>\<open>std::cout\<close>; the model returns the text written. The order in
  which \<^verbatim>\<open>std::unordered_map\<close> enumerates its entries is unspecified; the model lists
  them by ascending key, and nothing below depends on that choice.
\<close>

definition print :: "CacheManager \<Rightarrow> string" where
  "print s =
     ''Cache Contents:'' @ [CHR 0x0A] @
     (if cache s = fmempty then ''  (empty)'' @ [CHR 0x0A]
      else concat (map (\<lambda>(key, val). ''  Key: '' @ key @ '', Value: '' @ val @ [CHR 0x0A])
                     (sorted_list_of_fmap (cache s))))"

text \<open>
  The public member functions as one type of calls, so that statements can range over
  "any operation": a call yields either the exception thrown or what was returned,
  together with the object afterwards.
\<close>

datatype call = Put string string | Get string | Clear | Size | Print

datatype reply = Done | Value string | Count nat | Printed string

fun invoke :: "call \<Rightarrow> CacheManager \<Rightarrow> (error + reply) \<times> CacheManager" where
  "invoke (Put key val) s =
     (case put key val s of (Inl e, s') \<Rightarrow> (Inl e, s') | (Inr _, s') \<Rightarrow> (Inr Done, s'))"
| "invoke (Get key) s =
     (case get key s of (Inl e, s') \<Rightarrow> (Inl e, s') | (Inr v, s') \<Rightarrow> (Inr (Value v), s'))"
| "invoke Clear s = (Inr Done, clear s)"
| "invoke Size s = (Inr (Count (size_c s)), s)"
| "invoke Print s = (Inr (Printed (print s)), s)"

text \<open>
  A caller issuing one \<^verbatim>\<open>put\<close> after another, going on after a rejected one (the
  exception is the caller's to catch).
\<close>

fun puts :: "(string \<times> string) list \<Rightarrow> CacheManager \<Rightarrow> CacheManager" where
  "puts [] s = s"
| "puts ((key, val) # kvs) s = puts kvs (snd (put key val s))"

text \<open>
  No call can store the empty key, so it is absent from every store the program builds.
\<close>

definition no_empty_key :: "CacheManager \<Rightarrow> bool" where
  "no_empty_key s = (fmlookup (cache s) [] = None)"

section \<open>The singleton: static members and \<^verbatim>\<open>getInstance\<close>\<close>

text \<open>
  The process state the class adds: the static pointer \<^verbatim>\<open>instance\<close> (\<open>None\<close> is
  \<^verbatim>\<open>nullptr\<close>), the static \<^verbatim>\<open>std::once_flag initInstanceFlag\<close> (\<open>True\<close> once
  \<^verbatim>\<open>std::call_once\<close> has run its callable to completion), and the objects made by
  \<^verbatim>\<open>new CacheManager()\<close>, each at the address that is its index. Both statics start
  as the definitions at the end of the source file set them.
\<close>

type_synonym addr = nat

record process =
  instance_ptr :: "addr option"
  initInstanceFlag :: bool
  heap :: "CacheManager list"

definition process_start :: process where
  "process_start = \<lparr>instance_ptr = None, initInstanceFlag = False, heap = []\<rparr>"

definition initSingleton :: "process \<Rightarrow> process" where
  "initSingleton p =
     p\<lparr>instance_ptr := Some (length (heap p)), heap := heap p @ [CacheManager_new]\<rparr>"

text \<open>
  \<^verbatim>\<open>std::call_once(initInstanceFlag, &CacheManager::initSingleton)\<close>, as one thread
  sees it: the callable runs only when the flag is not yet set, and the flag is set when
  it returns.
\<close>

definition call_once_initSingleton :: "process \<Rightarrow> process" where
  "call_once_initSingleton p =
     (if initInstanceFlag p then p else (initSingleton p)\<lparr>initInstanceFlag := True\<rparr>)"

text \<open>
  \<^verbatim>\<open>getInstance\<close> returns \<^verbatim>\<open>*instance\<close>. Dereferencing a null pointer or one to
  no live object is undefined behaviour, for which the model has \<open>None\<close>.
\<close>

definition getInstance :: "process \<Rightarrow> (addr \<times> process) option" where
  "getInstance p =
     (let p' = call_once_initSingleton p
      in case instance_ptr p' of
           None \<Rightarrow> None
         | Some a \<Rightarrow> if a < length (heap p') then Some (a, p') else None)"

text \<open>
  What a client can do: obtain the reference, or call a member function through a
  reference it holds. A reference to no live object cannot be formed without undefined
  behaviour, so such a call is \<open>None\<close> as well.
\<close>

datatype request = GetInstance | Call addr call

datatype response = Handle addr | Returned "error + reply"

fun exec :: "request \<Rightarrow> process \<Rightarrow> (response \<times> process) option" where
  "exec GetInstance p =
     (case getInstance p of None \<Rightarrow> None | Some (a, p') \<Rightarrow> Some (Handle a, p'))"
| "exec (Call a c) p =
     (if a < length (heap p)
      then (case invoke c (heap p ! a) of
              (r, s') \<Rightarrow> Some (Returned r, p\<lparr>heap := (heap p)[a := s']\<rparr>))
      else None)"

fun run :: "request list \<Rightarrow> process \<Rightarrow> process option" where
  "run [] p = Some p"
| "run (r # rs) p = (case exec r p of None \<Rightarrow> None | Some (_, p') \<Rightarrow> run rs p')"

text \<open>
  The shape of every state the program reaches: before the first \<^verbatim>\<open>getInstance\<close>
  nothing exists, afterwards \<^verbatim>\<open>instance\<close> points to the one object.
\<close>

definition singleton_state :: "process \<Rightarrow> bool" where
  "singleton_state p =
     (if initInstanceFlag p then instance_ptr p = Some 0 \<and> length (heap p) = 1
      else instance_ptr p = None \<and> heap p = [])"

text \<open>Requests of a client that has called \<^verbatim>\<open>getInstance\<close> and uses what it got.\<close>

fun through_singleton :: "request \<Rightarrow> bool" where
  "through_singleton GetInstance = True"
| "through_singleton (Call a c) = (a = 0)"

section \<open>Properties of the cache object\<close>

lemma puts_no_empty_key: "no_empty_key s \<Longrightarrow> no_empty_key (puts kvs s)"
  by (induction kvs arbitrary: s) (auto simp: no_empty_key_def put_def)

lemma invoke_no_empty_key: "no_empty_key s \<Longrightarrow> no_empty_key (snd (invoke c s))"
  by (cases c) (auto simp add: no_empty_key_def put_def get_def clear_def split: option.splits)

lemma new_no_empty_key: "no_empty_key CacheManager_new"
  by (simp add: no_empty_key_def CacheManager_new_def)

text \<open>
  C1 (as amended). For a non-empty key, \<^verbatim>\<open>get\<close> returns the stored value when the key is
  present and the empty string when it is not. The empty string differs from every
  non-empty value in the store; it is not kept apart from a stored empty string.
\<close>

theorem get_absent_is_empty_string:
  "key \<noteq> [] \<Longrightarrow>
   (\<forall>v. fmlookup (cache s) key = Some v \<longrightarrow> get key s = (Inr v, s)) \<and>
   (fmlookup (cache s) key = None \<longrightarrow>
      get key s = (Inr [], s) \<and>
      (\<forall>k' v. fmlookup (cache s) k' = Some v \<longrightarrow> v \<noteq> [] \<longrightarrow> fst (get key s) \<noteq> Inr v))"
  by (simp add: get_def)

theorem get_absent_is_empty_string_witness:
  "get ''b'' (snd (put ''a'' ''x'' CacheManager_new)) =
     (Inr [], snd (put ''a'' ''x'' CacheManager_new)) \<and>
   fst (get ''b'' (snd (put ''a'' ''x'' CacheManager_new))) \<noteq> Inr ''x'' \<and>
   get ''a'' (snd (put ''a'' ''x'' CacheManager_new)) =
     (Inr ''x'', snd (put ''a'' ''x'' CacheManager_new))"
  using get_absent_is_empty_string [of "''b''" "snd (put ''a'' ''x'' CacheManager_new)"]
    get_absent_is_empty_string [of "''a''" "snd (put ''a'' ''x'' CacheManager_new)"]
  by (simp add: put_def CacheManager_new_def)

text \<open>
  C1 as stated fails: in the store built by \<^verbatim>\<open>put("a", "")\<close> the key \<^verbatim>\<open>"b"\<close> is
  absent, and \<^verbatim>\<open>get("b")\<close> returns the very value stored under \<^verbatim>\<open>"a"\<close>, so the
  result for an absent key is not distinguishable from every stored value.
\<close>

theorem get_absent_counterexample:
  "''b'' \<noteq> [] \<and>
   fmlookup (cache (snd (put ''a'' [] CacheManager_new))) ''b'' = None \<and>
   fmlookup (cache (snd (put ''a'' [] CacheManager_new))) ''a'' = Some [] \<and>
   fst (get ''b'' (snd (put ''a'' [] CacheManager_new))) = Inr [] \<and>
   fst (get ''b'' (snd (put ''a'' [] CacheManager_new))) =
     fst (get ''a'' (snd (put ''a'' [] CacheManager_new)))"
  by (simp add: put_def get_def CacheManager_new_def)

text \<open>
  C3. Both \<^verbatim>\<open>put("", x)\<close>, for any value \<open>x\<close>, and \<^verbatim>\<open>get("")\<close> fail with
  \<open>InvalidArgument\<close>, and the store after the failed call is the store before it.
\<close>

theorem empty_key_rejected:
  "put [] x s = (Inl InvalidArgument, s) \<and> get [] s = (Inl InvalidArgument, s)"
  by (simp add: put_def get_def)

text \<open>
  C4. For every non-empty key and every value, \<^verbatim>\<open>put(k, v)\<close> succeeds and
  \<^verbatim>\<open>get(k)\<close> on the resulting store returns \<open>v\<close>, whatever the store held before.
\<close>

theorem put_get_roundtrip:
  "key \<noteq> [] \<Longrightarrow>
   fst (put key val s) = Inr () \<and> fst (get key (snd (put key val s))) = Inr val"
  by (simp add: put_def get_def)

theorem put_get_roundtrip_witness:
  "fst (put ''k'' ''v'' CacheManager_new) = Inr () \<and>
   fst (get ''k'' (snd (put ''k'' ''v'' CacheManager_new))) = Inr ''v''"
  using put_get_roundtrip [of "''k''" "''v''" CacheManager_new] by simp

text \<open>
  C5. For a non-empty key, after \<^verbatim>\<open>put(k, v1)\<close> and then \<^verbatim>\<open>put(k, v2)\<close> the
  call \<^verbatim>\<open>get(k)\<close> returns \<open>v2\<close>, and \<^verbatim>\<open>size()\<close> after the second \<^verbatim>\<open>put\<close> is
  what it was after the first.
\<close>

theorem overwrite_keeps_size:
  "key \<noteq> [] \<Longrightarrow>
   fst (get key (snd (put key v2 (snd (put key v1 s))))) = Inr v2 \<and>
   size_c (snd (put key v2 (snd (put key v1 s)))) = size_c (snd (put key v1 s))"
  by (simp add: put_def get_def size_c_def)

theorem overwrite_keeps_size_witness:
  "fst (get ''k'' (snd (put ''k'' ''v2'' (snd (put ''k'' ''v1'' CacheManager_new))))) =
     Inr ''v2'' \<and>
   size_c (snd (put ''k'' ''v2'' (snd (put ''k'' ''v1'' CacheManager_new)))) =
     size_c (snd (put ''k'' ''v1'' CacheManager_new))"
  using overwrite_keeps_size [of "''k''" "''v2''" "''v1''" CacheManager_new] by simp

text \<open>
  C6. After any sequence of \<^verbatim>\<open>put\<close> calls on a store of the program (one without
  the empty key, which no call can insert), \<^verbatim>\<open>clear()\<close> leaves a store whose
  \<^verbatim>\<open>size()\<close> is 0 and on which \<^verbatim>\<open>get(k)\<close>, for every key \<open>k\<close> stored before the
  \<^verbatim>\<open>clear\<close>, returns the result for an absent key, the empty string.
\<close>

theorem clear_empties:
  "no_empty_key s \<Longrightarrow>
   size_c (clear (puts kvs s)) = 0 \<and>
   (\<forall>k. fmlookup (cache (puts kvs s)) k \<noteq> None \<longrightarrow>
      get k (clear (puts kvs s)) = (Inr [], clear (puts kvs s)))"
  using puts_no_empty_key [of s kvs]
  by (auto simp add: clear_def size_c_def get_def no_empty_key_def)

theorem clear_empties_witness:
  "no_empty_key CacheManager_new \<and>
   fmlookup (cache (puts [(''a'', ''x''), (''b'', ''y'')] CacheManager_new)) ''a'' = Some ''x'' \<and>
   size_c (clear (puts [(''a'', ''x''), (''b'', ''y'')] CacheManager_new)) = 0 \<and>
   get ''a'' (clear (puts [(''a'', ''x''), (''b'', ''y'')] CacheManager_new)) =
     (Inr [], clear (puts [(''a'', ''x''), (''b'', ''y'')] CacheManager_new))"
  using clear_empties [of CacheManager_new "[(''a'', ''x''), (''b'', ''y'')]"]
  by (simp add: no_empty_key_def CacheManager_new_def put_def)

text \<open>
  C7. A call fails exactly when it is a \<^verbatim>\<open>put\<close> or a \<^verbatim>\<open>get\<close> with the empty key,
  and the failure is then \<open>InvalidArgument\<close>; every other call, among them every
  \<^verbatim>\<open>clear\<close>, \<^verbatim>\<open>size\<close> and \<^verbatim>\<open>print\<close>, returns, whatever the store holds.
\<close>

theorem failure_iff_empty_key:
  "(fst (invoke c s) = Inl InvalidArgument) = ((\<exists>v. c = Put [] v) \<or> c = Get []) \<and>
   (\<exists>r. fst (invoke c s) = Inr r) = (\<not> ((\<exists>v. c = Put [] v) \<or> c = Get []))"
  by (cases c) (auto simp add: put_def get_def split: option.splits)

text \<open>
  C9. A \<^verbatim>\<open>put(k, v)\<close> with non-empty \<open>k\<close> changes the binding of \<open>k\<close> only:
  \<^verbatim>\<open>get(k')\<close> gives the same result before and after for every other key, and
  \<^verbatim>\<open>size()\<close> grows by exactly 1 when \<open>k\<close> was absent and stays when it was present.
\<close>

theorem put_frame:
  "key \<noteq> [] \<Longrightarrow>
   (\<forall>k'. k' \<noteq> key \<longrightarrow> fst (get k' (snd (put key val s))) = fst (get k' s)) \<and>
   size_c (snd (put key val s)) =
     (if fmlookup (cache s) key = None then size_c s + 1 else size_c s)"
  by (auto simp add: put_def get_def size_c_def fcard_finsert_if fmlookup_dom_iff
      split: option.splits)

theorem put_frame_witness:
  "fst (get ''j'' (snd (put ''k'' ''v'' (snd (put ''j'' ''w'' CacheManager_new))))) =
     fst (get ''j'' (snd (put ''j'' ''w'' CacheManager_new))) \<and>
   size_c (snd (put ''k'' ''v'' (snd (put ''j'' ''w'' CacheManager_new)))) =
     size_c (snd (put ''j'' ''w'' CacheManager_new)) + 1 \<and>
   size_c (snd (put ''j'' ''v'' (snd (put ''j'' ''w'' CacheManager_new)))) =
     size_c (snd (put ''j'' ''w'' CacheManager_new))"
  using put_frame [of "''k''" "''v''" "snd (put ''j'' ''w'' CacheManager_new)"]
    put_frame [of "''j''" "''v''" "snd (put ''j'' ''w'' CacheManager_new)"]
  by (simp add: put_def CacheManager_new_def)

text \<open>
  C10. For a non-empty key \<open>k\<close>, \<^verbatim>\<open>put(k, "")\<close> succeeds and stores the empty
  string, and \<^verbatim>\<open>get(k)\<close> then returns the empty string: the result \<^verbatim>\<open>get(k)\<close>
  has on any store from which \<open>k\<close> is absent. The two cases look the same to the caller.
\<close>

theorem empty_value_looks_absent:
  "key \<noteq> [] \<Longrightarrow> fmlookup (cache t) key = None \<Longrightarrow>
   fst (put key [] s) = Inr () \<and>
   fmlookup (cache (snd (put key [] s))) key = Some [] \<and>
   fst (get key (snd (put key [] s))) = Inr [] \<and>
   fst (get key t) = fst (get key (snd (put key [] s)))"
  by (simp add: put_def get_def)

theorem empty_value_looks_absent_witness:
  "fmlookup (cache CacheManager_new) ''a'' = None \<and>
   fmlookup (cache (snd (put ''a'' [] CacheManager_new))) ''a'' = Some [] \<and>
   fst (get ''a'' (snd (put ''a'' [] CacheManager_new))) = Inr [] \<and>
   fst (get ''a'' CacheManager_new) = fst (get ''a'' (snd (put ''a'' [] CacheManager_new)))"
  using empty_value_looks_absent [of "''a''" CacheManager_new CacheManager_new]
  by (simp add: CacheManager_new_def)

section \<open>Properties of the singleton\<close>

lemma singleton_state_start: "singleton_state process_start"
  by (simp add: singleton_state_def process_start_def)

lemma exec_singleton_state:
  "exec r p = Some (x, p') \<Longrightarrow> singleton_state p \<Longrightarrow> singleton_state p'"
  by (cases r)
    (auto simp add: singleton_state_def getInstance_def call_once_initSingleton_def
      initSingleton_def Let_def split: option.splits if_splits prod.splits)

lemma run_singleton_state:
  "run rs p = Some p' \<Longrightarrow> singleton_state p \<Longrightarrow> singleton_state p'"
proof (induction rs arbitrary: p)
  case Nil
  then show ?case by simp
next
  case (Cons r rs)
  then show ?case
    by (auto split: option.splits dest: exec_singleton_state)
qed

text \<open>
  In a state of the program \<^verbatim>\<open>getInstance\<close> always returns, with the one address and
  the flag set; called again, it returns the same address and changes nothing.
\<close>

lemma getInstance_defined:
  "singleton_state p \<Longrightarrow>
   \<exists>p'. getInstance p = Some (0, p') \<and> initInstanceFlag p' \<and> singleton_state p'"
  by (auto simp add: singleton_state_def getInstance_def call_once_initSingleton_def
      initSingleton_def Let_def split: if_splits)

lemma getInstance_again:
  "singleton_state p \<Longrightarrow> getInstance p = Some (a, p') \<Longrightarrow> getInstance p' = Some (a, p')"
  by (auto simp add: singleton_state_def getInstance_def call_once_initSingleton_def
      initSingleton_def Let_def split: if_splits option.splits)

text \<open>The flag is set by \<^verbatim>\<open>getInstance\<close> and by nothing else, and no request clears it.\<close>

lemma exec_flag_stays:
  "exec r p = Some (x, p') \<Longrightarrow> initInstanceFlag p \<Longrightarrow> initInstanceFlag p'"
  by (cases r)
    (auto simp add: getInstance_def call_once_initSingleton_def Let_def
      split: option.splits if_splits prod.splits)

lemma run_flag_stays:
  "run rs p = Some p' \<Longrightarrow> initInstanceFlag p \<Longrightarrow> initInstanceFlag p'"
proof (induction rs arbitrary: p)
  case Nil
  then show ?case by simp
next
  case (Cons r rs)
  then show ?case
    by (auto split: option.splits dest: exec_flag_stays)
qed

lemma exec_flag_set:
  "exec r p = Some (x, p') \<Longrightarrow> initInstanceFlag p' = (initInstanceFlag p \<or> r = GetInstance)"
  by (cases r)
    (auto simp add: getInstance_def call_once_initSingleton_def Let_def
      split: option.splits if_splits prod.splits)

lemma run_flag_set:
  "run rs p = Some p' \<Longrightarrow> initInstanceFlag p' = (initInstanceFlag p \<or> GetInstance \<in> set rs)"
proof (induction rs arbitrary: p)
  case Nil
  then show ?case by simp
next
  case (Cons r rs)
  then show ?case
    by (auto split: option.splits dest: exec_flag_set)
qed

text \<open>
  Runs are defined: once \<^verbatim>\<open>getInstance\<close> has been called, every request that goes
  through the reference it returned has a result, so the statements about
  \<open>run rs p = Some p'\<close> below speak of all such runs.
\<close>

lemma exec_defined:
  assumes "singleton_state p" and "initInstanceFlag p" and "through_singleton r"
  shows "\<exists>x p'. exec r p = Some (x, p')"
proof (cases r)
  case GetInstance
  from assms(1) obtain p' where "getInstance p = Some (0, p')"
    using getInstance_defined by blast
  with GetInstance show ?thesis by simp
next
  case (Call a c)
  with assms show ?thesis
    by (auto simp add: singleton_state_def split: prod.splits)
qed

lemma run_defined:
  "singleton_state p \<Longrightarrow> initInstanceFlag p \<Longrightarrow> list_all through_singleton rs \<Longrightarrow>
   \<exists>p'. run rs p = Some p'"
proof (induction rs arbitrary: p)
  case Nil
  then show ?case by simp
next
  case (Cons r rs)
  from Cons.prems obtain x q where q: "exec r p = Some (x, q)"
    using exec_defined [of p r] by auto
  with Cons.prems have "singleton_state q" "initInstanceFlag q"
    by (auto dest: exec_singleton_state exec_flag_stays)
  with Cons.IH [of q] Cons.prems(3) obtain p' where "run rs q = Some p'"
    by auto
  with q show ?case by simp
qed

lemma run_from_start_defined:
  assumes "list_all through_singleton rs"
  shows "\<exists>p'. run (GetInstance # rs) process_start = Some p'"
proof -
  obtain q where q: "getInstance process_start = Some (0, q)"
    "initInstanceFlag q" "singleton_state q"
    using getInstance_defined [OF singleton_state_start] by blast
  with assms obtain p' where "run rs q = Some p'"
    using run_defined by blast
  with q show ?thesis by simp
qed

text \<open>
  On one thread: \<^verbatim>\<open>new CacheManager()\<close> has run once if \<^verbatim>\<open>getInstance\<close> was ever
  called and never otherwise, and an entry put through one reference is read through
  the reference a later \<^verbatim>\<open>getInstance\<close> returns.
\<close>

lemma constructed_once:
  "run rs process_start = Some p \<Longrightarrow>
   length (heap p) = (if GetInstance \<in> set rs then 1 else 0)"
  using run_singleton_state [of rs process_start p] run_flag_set [of rs process_start p]
  by (auto simp add: singleton_state_start singleton_state_def process_start_def
      split: if_splits)

lemma shared_store:
  "singleton_state p \<Longrightarrow> getInstance p = Some (a, p1) \<Longrightarrow>
   exec (Call a (Put key val)) p1 = Some (x, p2) \<Longrightarrow> getInstance p2 = Some (b, p3) \<Longrightarrow>
   key \<noteq> [] \<Longrightarrow>
   b = a \<and> exec (Call b (Get key)) p3 = Some (Returned (Inr (Value val)), p3)"
  by (auto simp add: singleton_state_def getInstance_def call_once_initSingleton_def
      initSingleton_def Let_def put_def get_def split: if_splits option.splits)

text \<open>
  C8. The gate \<^verbatim>\<open>initInstanceFlag\<close> has two states. After any sequence of
  \<^verbatim>\<open>getInstance\<close>, \<^verbatim>\<open>put\<close>, \<^verbatim>\<open>get\<close>, \<^verbatim>\<open>clear\<close>, \<^verbatim>\<open>size\<close> and
  \<^verbatim>\<open>print\<close> calls from the start of the process it is set exactly when
  \<^verbatim>\<open>getInstance\<close> was among them, so the first \<^verbatim>\<open>getInstance\<close> is what sets it;
  and once it is set, it is set in every state any further sequence of calls leads to.
\<close>

theorem gate_never_reverts:
  "run rs process_start = Some p \<Longrightarrow>
   initInstanceFlag p = (GetInstance \<in> set rs) \<and>
   (\<forall>rs' p'. initInstanceFlag p \<longrightarrow> run rs' p = Some p' \<longrightarrow> initInstanceFlag p')"
  using run_flag_set [of rs process_start p] run_flag_stays [of _ p]
  by (auto simp add: process_start_def)

theorem gate_never_reverts_witness:
  "run [GetInstance, Call 0 (Put ''a'' ''b''), Call 0 Clear] process_start =
     Some \<lparr>instance_ptr = Some 0, initInstanceFlag = True, heap = [\<lparr>cache = fmempty\<rparr>]\<rparr> \<and>
   run [Call 0 Size, GetInstance, Call 0 (Put ''k'' ''v'')]
       \<lparr>instance_ptr = Some 0, initInstanceFlag = True, heap = [\<lparr>cache = fmempty\<rparr>]\<rparr> =
     Some \<lparr>instance_ptr = Some 0, initInstanceFlag = True,
            heap = [\<lparr>cache = fmupd ''k'' ''v'' fmempty\<rparr>]\<rparr> \<and>
   initInstanceFlag \<lparr>instance_ptr = Some 0, initInstanceFlag = True,
            heap = [\<lparr>cache = fmupd ''k'' ''v'' fmempty\<rparr>]\<rparr>"
proof -
  let ?p0 = "\<lparr>instance_ptr = Some 0, initInstanceFlag = True, heap = [\<lparr>cache = fmempty\<rparr>]\<rparr>"
  let ?p1 = "\<lparr>instance_ptr = Some 0, initInstanceFlag = True,
            heap = [\<lparr>cache = fmupd ''k'' ''v'' fmempty\<rparr>]\<rparr>"
  have a: "run [GetInstance, Call 0 (Put ''a'' ''b''), Call 0 Clear] process_start = Some ?p0"
    by (simp add: process_start_def getInstance_def call_once_initSingleton_def
        initSingleton_def CacheManager_new_def put_def clear_def)
  have b: "run [Call 0 Size, GetInstance, Call 0 (Put ''k'' ''v'')] ?p0 = Some ?p1"
    by (simp add: getInstance_def call_once_initSingleton_def put_def)
  from gate_never_reverts [OF a] have c: "initInstanceFlag ?p0"
    and d: "\<And>rs' p'. initInstanceFlag ?p0 \<Longrightarrow> run rs' ?p0 = Some p' \<Longrightarrow> initInstanceFlag p'"
    by simp_all
  from d [OF c b] have "initInstanceFlag ?p1" .
  with a b show ?thesis by blast
qed

end
